theory Spec2Isabelle
  imports Main "HOL-Library.Sublist"
begin

unbundle bit_operations_syntax

section \<open>The state-acting context of \<^verbatim>\<open>cirq/sim/act_on_args.py\<close>\<close>

subsection \<open>Data model\<close>

text \<open>
  Exceptions are values. \<open>ValueError\<close> carries its message, \<open>KeyError\<close> is the failed
  dictionary lookup, \<open>AssertionError\<close> the failed \<^verbatim>\<open>assert\<close>; \<open>Raised\<close> stands for
  any exception thrown by code the module only calls (the abstract
  \<^verbatim>\<open>_perform_measurement\<close>, \<^verbatim>\<open>protocols.act_on\<close>).
\<close>

datatype error = ValueError string | AssertionError | KeyError | Raised string

text \<open>
  \<^verbatim>\<open>class ActOnArgs\<close>: the three fields set by \<^verbatim>\<open>__init__\<close>. The record is extensible,
  and the extension holds whatever a concrete subclass adds (its state tensor). The
  log is the dictionary the caller handed in; Python's unbounded integers are \<open>int\<close>.
\<close>

record 'p ActOnArgs =
  axes :: "int list"
  prng :: 'p
  log_of_measurement_results :: "string \<rightharpoonup> int list"

text \<open>
  A call on a mutable object either returns or raises, and in both cases leaves the
  object in some state: the outcome of a call is the pair of the two.
\<close>

type_synonym ('a, 's) outcome = "(error + 'a) \<times> 's"

subsection \<open>\<^verbatim>\<open>ActOnArgs.measure\<close>\<close>

text \<open>
  \<^verbatim>\<open>repr\<close> of a key that needs no escaping: the key between single quotes.
\<close>

definition repr_key :: "string \<Rightarrow> string" where
  "repr_key key = CHR 0x27 # key @ [CHR 0x27]"

text \<open>
  One element of the list comprehension, \<^verbatim>\<open>bit ^ (bit < 2 and mask)\<close>: the operand
  \<^verbatim>\<open>bit < 2 and mask\<close> is \<^verbatim>\<open>False\<close> when the measured value \<open>b\<close> is at least 2 and
  the mask entry \<open>m\<close> otherwise, and a Boolean is 0 or 1 under \<^verbatim>\<open>^\<close>.
\<close>

definition invert_bit :: "int \<Rightarrow> bool \<Rightarrow> int" where
  "invert_bit b m = b XOR of_bool (b < 2 \<and> m)"

text \<open>
  \<^verbatim>\<open>measure(self, key, invert_mask)\<close>. The abstract \<^verbatim>\<open>_perform_measurement\<close> is the
  parameter \<open>perform\<close>: it runs first, on the whole object, and may change it or raise.
  The comprehension over \<^verbatim>\<open>zip(bits, invert_mask)\<close> follows, then the membership test
  on the log, then the write.
\<close>

definition ActOnArgs_measure ::
  "(('p, 'm) ActOnArgs_scheme \<Rightarrow> (int list, ('p, 'm) ActOnArgs_scheme) outcome) \<Rightarrow>
   string \<Rightarrow> bool list \<Rightarrow> ('p, 'm) ActOnArgs_scheme \<Rightarrow>
   (unit, ('p, 'm) ActOnArgs_scheme) outcome" where
  "ActOnArgs_measure perform key invert_mask self =
     (case perform self of
        (Inl e, s) \<Rightarrow> (Inl e, s)
      | (Inr bits, s) \<Rightarrow>
          (let corrected = map (\<lambda>(b, m). invert_bit b m) (zip bits invert_mask)
           in if log_of_measurement_results s key \<noteq> None
              then (Inl (ValueError (''Measurement already logged to key '' @ repr_key key)), s)
              else (Inr (), s\<lparr>log_of_measurement_results :=
                                (log_of_measurement_results s)(key \<mapsto> corrected)\<rparr>)))"

subsection \<open>\<^verbatim>\<open>strat_act_on_from_apply_decompose\<close>\<close>

text \<open>
  An operation, as far as this module reads it: its \<^verbatim>\<open>qubits\<close>. Whatever else an
  operation carries (its gate) is the record's extension.
\<close>

record 'q Operation =
  qubits :: "'q list"

text \<open>
  What the strategy hands back: the sentinel \<^verbatim>\<open>NotImplemented\<close> or a Boolean.
\<close>

datatype strat_result = NotImplemented | ReturnedBool bool

text \<open>
  The dictionary comprehension \<^verbatim>\<open>{q: args.axes[i] for i, q in enumerate(qubits)}\<close>:
  the entries are written in the order of \<^verbatim>\<open>enumerate\<close>, a later one replacing an
  earlier one under the same qubit. It runs after the assertion on the two lengths,
  so every index read is within \<^verbatim>\<open>args.axes\<close>.
\<close>

definition qubit_map_of :: "'q list \<Rightarrow> int list \<Rightarrow> ('q \<rightharpoonup> int)" where
  "qubit_map_of qs ax = fold (\<lambda>(i, q) m. m(q \<mapsto> ax ! i)) (enumerate 0 qs) Map.empty"

text \<open>
  The body of the \<^verbatim>\<open>for\<close> loop inside \<^verbatim>\<open>try\<close>. The tuple
  \<^verbatim>\<open>tuple(qubit_map[q] for q in operation.qubits)\<close> is built before it is assigned, so a
  qubit missing from the dictionary raises \<^verbatim>\<open>KeyError\<close> with \<^verbatim>\<open>args.axes\<close> not yet
  written. \<^verbatim>\<open>protocols.act_on\<close> is the parameter \<open>act_on\<close>: it may change the context in
  any way, and may raise, which ends the loop.
\<close>

fun apply_operations ::
  "(('q, 'o) Operation_scheme \<Rightarrow> ('p, 'm) ActOnArgs_scheme \<Rightarrow>
      (unit, ('p, 'm) ActOnArgs_scheme) outcome) \<Rightarrow>
   ('q \<rightharpoonup> int) \<Rightarrow> ('q, 'o) Operation_scheme list \<Rightarrow> ('p, 'm) ActOnArgs_scheme \<Rightarrow>
   (unit, ('p, 'm) ActOnArgs_scheme) outcome" where
  "apply_operations act_on qubit_map [] args = (Inr (), args)"
| "apply_operations act_on qubit_map (operation # rest) args =
     (case those (map qubit_map (qubits operation)) of
        None \<Rightarrow> (Inl KeyError, args)
      | Some ax \<Rightarrow>
          (case act_on operation (args\<lparr>axes := ax\<rparr>) of
             (Inl e, args') \<Rightarrow> (Inl e, args')
           | (Inr u, args') \<Rightarrow> apply_operations act_on qubit_map rest args'))"

text \<open>
  The strategy. \<^verbatim>\<open>_try_decompose_into_operations_and_qubits\<close> lives in another module
  and is the parameter \<open>try_decompose\<close>; it returns the operations (\<^verbatim>\<open>None\<close> when the value
  does not decompose), the qubits and a shape the strategy ignores. The \<^verbatim>\<open>finally\<close>
  clause writes \<^verbatim>\<open>old_axes\<close> back on both ways out of the loop.
\<close>

definition strat_act_on_from_apply_decompose ::
  "('v \<Rightarrow> ('q, 'o) Operation_scheme list option \<times> 'q list \<times> 'sh) \<Rightarrow>
   (('q, 'o) Operation_scheme \<Rightarrow> ('p, 'm) ActOnArgs_scheme \<Rightarrow>
      (unit, ('p, 'm) ActOnArgs_scheme) outcome) \<Rightarrow>
   'v \<Rightarrow> ('p, 'm) ActOnArgs_scheme \<Rightarrow> (strat_result, ('p, 'm) ActOnArgs_scheme) outcome" where
  "strat_act_on_from_apply_decompose try_decompose act_on val args =
     (case try_decompose val of
        (None, qs, sh) \<Rightarrow> (Inr NotImplemented, args)
      | (Some operations, qs, sh) \<Rightarrow>
          if length qs \<noteq> length (axes args) then (Inl AssertionError, args)
          else
            (let qubit_map = qubit_map_of qs (axes args);
                 old_axes = axes args
             in case apply_operations act_on qubit_map operations args of
                  (Inl e, args') \<Rightarrow> (Inl e, args'\<lparr>axes := old_axes\<rparr>)
                | (Inr u, args') \<Rightarrow> (Inr (ReturnedBool True), args'\<lparr>axes := old_axes\<rparr>)))"

text \<open>
  The next two definitions are not translations of source functions. They spell out the
  specification's words, so that the strategy can be compared with them: the position
  of a qubit among the decomposed qubits ("the i-th decomposed qubit"), and the
  sub-operations applied "in sequence", each on the context with its axes set to a
  given tuple, stopping at the first one that raises.
\<close>

fun index_of :: "'a list \<Rightarrow> 'a \<Rightarrow> nat" where
  "index_of [] x = 0"
| "index_of (y # ys) x = (if y = x then 0 else Suc (index_of ys x))"

fun apply_in_order ::
  "('op \<Rightarrow> ('p, 'm) ActOnArgs_scheme \<Rightarrow> (unit, ('p, 'm) ActOnArgs_scheme) outcome) \<Rightarrow>
   ('op \<times> int list) list \<Rightarrow> ('p, 'm) ActOnArgs_scheme \<Rightarrow>
   (unit, ('p, 'm) ActOnArgs_scheme) outcome" where
  "apply_in_order act_on [] args = (Inr (), args)"
| "apply_in_order act_on ((operation, ax) # rest) args =
     (case act_on operation (args\<lparr>axes := ax\<rparr>) of
        (Inl e, args') \<Rightarrow> (Inl e, args')
      | (Inr u, args') \<Rightarrow> apply_in_order act_on rest args')"

subsection \<open>A decomposition and an \<^verbatim>\<open>act_on\<close> with an injected failure\<close>

text \<open>
  Concrete inputs on which the strategy is run below. The value 0 does not decompose;
  1 decomposes into two operations over the qubits \<open>a\<close> and \<open>b\<close>; 2 decomposes into three,
  the second of which acts on no qubit. \<open>recording_act_on\<close> appends the axes it is called
  with to the context (in the place of the random source) and then spoils the axes; on an
  operation without qubits it raises instead, again after spoiling the axes.
\<close>

definition example_decompose ::
  "nat \<Rightarrow> string Operation list option \<times> string list \<times> unit" where
  "example_decompose v =
     (if v = 0 then (None, [], ())
      else if v = 1
      then (Some [\<lparr>qubits = [''b'']\<rparr>, \<lparr>qubits = [''b'', ''a'']\<rparr>], [''a'', ''b''], ())
      else (Some [\<lparr>qubits = [''b'']\<rparr>, \<lparr>qubits = []\<rparr>, \<lparr>qubits = [''a'']\<rparr>],
            [''a'', ''b''], ()))"

definition recording_act_on ::
  "string Operation \<Rightarrow> (int list list) ActOnArgs \<Rightarrow> (unit, (int list list) ActOnArgs) outcome" where
  "recording_act_on operation args =
     (if qubits operation = [] then (Inl (Raised ''boom''), args\<lparr>axes := [99]\<rparr>)
      else (Inr (), args\<lparr>prng := prng args @ [axes args], axes := []\<rparr>))"

abbreviation example_args :: "(int list list) ActOnArgs" where
  "example_args \<equiv> \<lparr>axes = [5, 7], prng = [], log_of_measurement_results = Map.empty\<rparr>"

section \<open>The deprecation annotations of \<^verbatim>\<open>cirq/_compat.py\<close>\<close>

text \<open>
  The module \<^verbatim>\<open>cirq/_compat.py\<close> itself is not among the sources; \<^verbatim>\<open>_compat_test.py\<close>,
  which exercises it, is. The definitions of this section are therefore written from the
  specification's description of the annotations, with the message fragments and the
  exception types taken from the tests.
\<close>

text \<open>
  Modelled from the spec: the milestone pattern of the absent \<^verbatim>\<open>cirq/_compat.py\<close>, "a
  target removal milestone matching a vMAJOR.MINOR pattern". A milestone is the letter
  \<open>v\<close>, a non-empty run of decimal digits, a dot, and a non-empty run of decimal digits.
\<close>

definition is_digit :: "char \<Rightarrow> bool" where
  "is_digit c = (c \<in> set ''0123456789'')"

definition deadline_ok :: "string \<Rightarrow> bool" where
  "deadline_ok deadline =
     (case deadline of
        [] \<Rightarrow> False
      | c # rest \<Rightarrow>
          c = CHR ''v'' \<and>
          (let major = takeWhile is_digit rest; tail = dropWhile is_digit rest
           in major \<noteq> [] \<and>
              (case tail of
                 [] \<Rightarrow> False
               | p # minor \<Rightarrow> p = CHR ''.'' \<and> minor \<noteq> [] \<and> list_all is_digit minor)))"

text \<open>
  Modelled from the spec: the diagnostics of the absent \<^verbatim>\<open>cirq/_compat.py\<close> and the
  configuration they depend on. A diagnostic has a category and a text. The "global
  policy switch" either leaves a deprecated use a warning or upgrades it to a hard
  failure (internal self-use); the mode says whether a warning is emitted "on first
  use, once" or "on every use". The environment holds both and the warnings emitted so
  far.
\<close>

datatype category = DeprecationWarning | UserWarning

record diagnostic =
  category :: category
  message :: string

datatype policy = WarnOnUse | FailOnUse

datatype mode = FirstUse | EveryUse

record deprecation_env =
  policy :: policy
  mode :: mode
  emitted :: "diagnostic list"

text \<open>
  Modelled from the spec: the text of the warning built by the absent
  \<^verbatim>\<open>cirq/_compat.py\<close>, "stating the deprecated name, a target removal milestone and a
  suggested remediation". The fragments between the three are those the tests match
  (\<^verbatim>\<open>old_func was used\<close>, \<^verbatim>\<open>will be removed in cirq v1.2\<close>), joined by blanks.
\<close>

definition deprecation_message :: "string \<Rightarrow> string \<Rightarrow> string \<Rightarrow> string" where
  "deprecation_message name deadline fix =
     name @ '' was used but is deprecated. It will be removed in cirq '' @ deadline @
     ''. '' @ fix"

text \<open>
  Modelled from the spec: the step of the absent \<^verbatim>\<open>cirq/_compat.py\<close> that every wrapper
  takes on a deprecated use. Under the self-use policy it raises (the tests expect a
  \<^verbatim>\<open>ValueError\<close> whose text starts \<^verbatim>\<open>Cirq should not use deprecated functionality\<close>) and
  emits nothing. Otherwise it emits the warning, unless the mode is first-use-only and
  the same warning has been emitted before.
\<close>

definition warn_or_error :: "string \<Rightarrow> deprecation_env \<Rightarrow> (unit, deprecation_env) outcome" where
  "warn_or_error msg env =
     (if policy env = FailOnUse
      then (Inl (ValueError (''Cirq should not use deprecated functionality: '' @ msg)), env)
      else if mode env = FirstUse \<and> msg \<in> set (map message (emitted env))
      then (Inr (), env)
      else (Inr (), env\<lparr>emitted := emitted env @
                           [\<lparr>category = DeprecationWarning, message = msg\<rparr>]\<rparr>))"

text \<open>
  Modelled from the spec: the decorator \<^verbatim>\<open>deprecated\<close> of the absent
  \<^verbatim>\<open>cirq/_compat.py\<close>. The milestone is "validated at decoration time - malformed
  milestone strings fail immediately" (an \<^verbatim>\<open>AssertionError\<close> in the tests); otherwise the
  decorator returns the wrapped function, which reports the deprecated use and then
  calls the function it wraps.
\<close>

definition deprecated ::
  "string \<Rightarrow> string \<Rightarrow> string \<Rightarrow> ('a \<Rightarrow> 'b) \<Rightarrow>
   error + ('a \<Rightarrow> deprecation_env \<Rightarrow> ('b, deprecation_env) outcome)" where
  "deprecated deadline fix name func =
     (if \<not> deadline_ok deadline then Inl AssertionError
      else Inr (\<lambda>x env.
        case warn_or_error (deprecation_message name deadline fix) env of
          (Inl e, env') \<Rightarrow> (Inl e, env')
        | (Inr u, env') \<Rightarrow> (Inr (func x), env')))"

text \<open>
  Modelled from the spec: the decorator \<^verbatim>\<open>deprecated_class\<close> of the absent
  \<^verbatim>\<open>cirq/_compat.py\<close>: as \<^verbatim>\<open>deprecated\<close>, the deprecated use being the instantiation of
  the class, \<open>new\<close> its constructor.
\<close>

definition deprecated_class ::
  "string \<Rightarrow> string \<Rightarrow> string \<Rightarrow> ('a \<Rightarrow> 'b) \<Rightarrow>
   error + ('a \<Rightarrow> deprecation_env \<Rightarrow> ('b, deprecation_env) outcome)" where
  "deprecated_class deadline fix name new =
     (if \<not> deadline_ok deadline then Inl AssertionError
      else Inr (\<lambda>x env.
        case warn_or_error (deprecation_message name deadline fix) env of
          (Inl e, env') \<Rightarrow> (Inl e, env')
        | (Inr u, env') \<Rightarrow> (Inr (new x), env')))"

text \<open>
  Modelled from the spec: the decorator \<^verbatim>\<open>deprecated_parameter\<close> of the absent
  \<^verbatim>\<open>cirq/_compat.py\<close>. A call whose arguments \<open>match\<close> uses the deprecated parameter: it
  is reported (the tests expect \<^verbatim>\<open>double_count parameter of test_func was used\<close>) and the
  function is called on the rewritten arguments. Any other call goes through silently.
\<close>

definition deprecated_parameter ::
  "string \<Rightarrow> string \<Rightarrow> string \<Rightarrow> string \<Rightarrow> ('a \<Rightarrow> bool) \<Rightarrow> ('a \<Rightarrow> 'a) \<Rightarrow> ('a \<Rightarrow> 'b) \<Rightarrow>
   error + ('a \<Rightarrow> deprecation_env \<Rightarrow> ('b, deprecation_env) outcome)" where
  "deprecated_parameter deadline fix func_name parameter_desc match rewrite func =
     (if \<not> deadline_ok deadline then Inl AssertionError
      else Inr (\<lambda>x env.
        if match x
        then (case warn_or_error
                     (deprecation_message (parameter_desc @ '' parameter of '' @ func_name)
                        deadline fix) env of
                (Inl e, env') \<Rightarrow> (Inl e, env')
              | (Inr u, env') \<Rightarrow> (Inr (func (rewrite x)), env'))
        else (Inr (func x), env)))"

text \<open>
  Modelled from the spec: \<^verbatim>\<open>deprecate_attributes\<close> of the absent \<^verbatim>\<open>cirq/_compat.py\<close>,
  the "module attribute interception". The table gives a milestone and a remediation
  for each deprecated attribute; every milestone is validated when the module is
  wrapped. Reading a deprecated attribute of the wrapped module is reported and then
  answered by the module; any other attribute is read silently.
\<close>

definition deprecate_attributes ::
  "(string \<rightharpoonup> 'a) \<Rightarrow> (string \<times> string \<times> string) list \<Rightarrow>
   error + (string \<Rightarrow> deprecation_env \<Rightarrow> ('a, deprecation_env) outcome)" where
  "deprecate_attributes module deprecated_attributes =
     (if \<not> list_all (\<lambda>(name, deadline, fix). deadline_ok deadline) deprecated_attributes
      then Inl AssertionError
      else Inr (\<lambda>name env.
        case map_of deprecated_attributes name of
          None \<Rightarrow> (case module name of
                     None \<Rightarrow> (Inl (Raised ''AttributeError''), env)
                   | Some v \<Rightarrow> (Inr v, env))
        | Some (deadline, fix) \<Rightarrow>
            (case warn_or_error (deprecation_message name deadline fix) env of
               (Inl e, env') \<Rightarrow> (Inl e, env')
             | (Inr u, env') \<Rightarrow>
                 (case module name of
                    None \<Rightarrow> (Inl (Raised ''AttributeError''), env')
                  | Some v \<Rightarrow> (Inr v, env')))))"

section \<open>Properties of the state-acting context\<close>

subsection \<open>Auxiliary facts about \<^verbatim>\<open>measure\<close>\<close>

lemma invert_bit_large: "2 \<le> b \<Longrightarrow> invert_bit b m = b"
  by (simp add: invert_bit_def)

lemma xor_one_neq: "(b::int) XOR 1 \<noteq> b"
proof
  assume "b XOR 1 = b"
  then have "even (b XOR 1) = even b" by simp
  then show False by (simp add: even_xor_iff)
qed

lemma invert_bit_small:
  "b < 2 \<Longrightarrow> invert_bit b m = b XOR of_bool m \<and> (invert_bit b m \<noteq> b) = m"
  using xor_one_neq [of b] by (cases m) (simp_all add: invert_bit_def)

lemma measure_fresh_key:
  assumes "perform self = (Inr bits, s)"
    and "log_of_measurement_results s key = None"
  shows "ActOnArgs_measure perform key invert_mask self =
           (Inr (), s\<lparr>log_of_measurement_results :=
              (log_of_measurement_results s)
                (key \<mapsto> map (\<lambda>(b, m). invert_bit b m) (zip bits invert_mask))\<rparr>)"
  using assms by (simp add: ActOnArgs_measure_def)

lemma measure_state_is_performs:
  assumes "perform self = (r, s)"
    and "log_of_measurement_results s key \<noteq> None"
  shows "ActOnArgs_measure perform key invert_mask self =
           (Inl (case r of Inl e \<Rightarrow> e
                 | Inr bits \<Rightarrow> ValueError (''Measurement already logged to key '' @ repr_key key)),
            s)"
  using assms by (cases r) (auto simp: ActOnArgs_measure_def)

subsection \<open>The inversion mask\<close>

text \<open>
  Claim C1. Let the measurement return \<open>N\<close> values and the mask have \<open>N\<close> entries, the
  key being new to the log. Then \<^verbatim>\<open>measure\<close> returns normally and records under the key
  a list of \<open>N\<close> values in which every value whose mask entry is unset is the measured
  one, and every measured value below 2, so every bit 0 or 1, is recorded as the
  measured value XOR its mask entry: it differs from the measured one exactly when the
  mask entry is set. Lists of different lengths are outside the statement, as the
  caller's error.
\<close>

theorem measure_inverts_masked_bits:
  assumes "perform self = (Inr bits, s)"
    and "log_of_measurement_results s key = None"
    and "length bits = N" and "length invert_mask = N"
  shows "\<exists>corrected.
           ActOnArgs_measure perform key invert_mask self =
             (Inr (), s\<lparr>log_of_measurement_results :=
                (log_of_measurement_results s)(key \<mapsto> corrected)\<rparr>) \<and>
           length corrected = N \<and>
           (\<forall>i<N. (\<not> invert_mask ! i \<longrightarrow> corrected ! i = bits ! i) \<and>
                  (bits ! i < 2 \<longrightarrow>
                     corrected ! i = bits ! i XOR of_bool (invert_mask ! i) \<and>
                     (corrected ! i \<noteq> bits ! i) = invert_mask ! i))"
proof -
  let ?c = "map (\<lambda>(b, m). invert_bit b m) (zip bits invert_mask)"
  have len: "length ?c = N"
    using assms(3,4) by simp
  have at: "?c ! i = invert_bit (bits ! i) (invert_mask ! i)" if "i < N" for i
    using that assms(3,4) by simp
  have pt: "(\<not> invert_mask ! i \<longrightarrow> ?c ! i = bits ! i) \<and>
            (bits ! i < 2 \<longrightarrow>
               ?c ! i = bits ! i XOR of_bool (invert_mask ! i) \<and>
               (?c ! i \<noteq> bits ! i) = invert_mask ! i)" if "i < N" for i
    unfolding at [OF that]
    using invert_bit_small [of "bits ! i" "invert_mask ! i"]
    by (auto simp: invert_bit_def)
  show ?thesis
    using measure_fresh_key [of perform self bits s key invert_mask] assms(1,2) len pt
    by blast
qed

theorem measure_inverts_masked_bits_witness:
  "ActOnArgs_measure (\<lambda>s. (Inr [0, 1, 1, 0], s)) ''m'' [True, False, True, False]
     \<lparr>axes = [0, 1, 2, 3], prng = (), log_of_measurement_results = Map.empty\<rparr> =
   (Inr (), \<lparr>axes = [0, 1, 2, 3], prng = (),
             log_of_measurement_results = [''m'' \<mapsto> [1, 1, 0, 0]]\<rparr>)"
proof -
  let ?self = "\<lparr>axes = [0, 1, 2, 3::int], prng = (), log_of_measurement_results = Map.empty\<rparr>"
  obtain corrected where
    m: "ActOnArgs_measure (\<lambda>s. (Inr [0, 1, 1, 0], s)) ''m'' [True, False, True, False] ?self =
          (Inr (), ?self\<lparr>log_of_measurement_results :=
             (log_of_measurement_results ?self)(''m'' \<mapsto> corrected)\<rparr>)"
    and l: "length corrected = 4"
    and p: "\<forall>i<4. (\<not> [True, False, True, False] ! i \<longrightarrow> corrected ! i = [0, 1, 1, 0] ! i) \<and>
                  ([0, 1, 1, 0::int] ! i < 2 \<longrightarrow>
                     corrected ! i = [0, 1, 1, 0] ! i XOR of_bool ([True, False, True, False] ! i) \<and>
                     (corrected ! i \<noteq> [0, 1, 1, 0] ! i) = [True, False, True, False] ! i)"
    using measure_inverts_masked_bits
      [of "\<lambda>s. (Inr [0, 1, 1, 0], s)" ?self "[0, 1, 1, 0]" ?self "''m''" 4
          "[True, False, True, False]"]
    by auto
  have "corrected ! 0 = 1" "corrected ! 1 = 1" "corrected ! 2 = 0" "corrected ! 3 = 0"
    using p by (simp_all add: nth_Cons')
  with l have "corrected = [1, 1, 0, 0]"
    by (simp add: list_eq_iff_nth_eq nth_Cons' less_Suc_eq numeral_eq_Suc)
  with m show ?thesis by simp
qed

text \<open>
  Claim C10. Whatever the two lengths are, a measurement under a new key returns
  normally: the recorded list has the length of the shorter of the measured values and
  the mask, and a measured value of 2 or more is recorded as it is, whatever its mask
  entry.
\<close>

theorem measure_truncates_and_keeps_large_values:
  assumes "perform self = (Inr bits, s)"
    and "log_of_measurement_results s key = None"
  shows "\<exists>corrected.
           ActOnArgs_measure perform key invert_mask self =
             (Inr (), s\<lparr>log_of_measurement_results :=
                (log_of_measurement_results s)(key \<mapsto> corrected)\<rparr>) \<and>
           length corrected = min (length bits) (length invert_mask) \<and>
           (\<forall>i<length corrected. 2 \<le> bits ! i \<longrightarrow> corrected ! i = bits ! i)"
proof -
  let ?c = "map (\<lambda>(b, m). invert_bit b m) (zip bits invert_mask)"
  have "length ?c = min (length bits) (length invert_mask)"
    by simp
  moreover have "\<forall>i<length ?c. 2 \<le> bits ! i \<longrightarrow> ?c ! i = bits ! i"
    by (simp add: invert_bit_large)
  ultimately show ?thesis
    using measure_fresh_key [of perform self bits s key invert_mask] assms by blast
qed

theorem measure_truncates_and_keeps_large_values_witness:
  "ActOnArgs_measure (\<lambda>s. (Inr [0, 1, 2, 3], s)) ''m'' [True, True, True]
     \<lparr>axes = [0, 1, 2, 3], prng = (), log_of_measurement_results = Map.empty\<rparr> =
   (Inr (), \<lparr>axes = [0, 1, 2, 3], prng = (),
             log_of_measurement_results = [''m'' \<mapsto> [1, 0, 2]]\<rparr>)"
  using measure_truncates_and_keeps_large_values
    [of "\<lambda>s. (Inr [0, 1, 2, 3], s)"
        "\<lparr>axes = [0, 1, 2, 3], prng = (), log_of_measurement_results = Map.empty\<rparr>"
        "[0, 1, 2, 3]"
        "\<lparr>axes = [0, 1, 2, 3], prng = (), log_of_measurement_results = Map.empty\<rparr>"
        "''m''" "[True, True, True]"]
  by (simp add: ActOnArgs_measure_def invert_bit_def)

subsection \<open>A key that is already in the log\<close>

text \<open>
  Claim C2. Let the log hold an entry under the key, and let the measurement itself
  leave the log alone. Then \<^verbatim>\<open>measure\<close> raises, and the log after the call is the log
  before it: the entry under the key is the one that was there, and no entry is added.
\<close>

theorem measure_duplicate_key_fails:
  assumes "log_of_measurement_results self key = Some v"
    and "log_of_measurement_results (snd (perform self)) = log_of_measurement_results self"
  shows "(\<exists>e. fst (ActOnArgs_measure perform key invert_mask self) = Inl e) \<and>
         log_of_measurement_results (snd (ActOnArgs_measure perform key invert_mask self)) =
           log_of_measurement_results self \<and>
         log_of_measurement_results (snd (ActOnArgs_measure perform key invert_mask self)) key =
           Some v"
proof -
  obtain r s where p: "perform self = (r, s)"
    by (cases "perform self")
  with assms have "log_of_measurement_results s key \<noteq> None"
    by simp
  from measure_state_is_performs [of perform self r s key invert_mask, OF p this] assms p
  show ?thesis by simp
qed

theorem measure_duplicate_key_fails_witness:
  "fst (ActOnArgs_measure (\<lambda>s. (Inr [1, 0], s)) ''m'' [True, True]
     \<lparr>axes = [0, 1], prng = (), log_of_measurement_results = [''m'' \<mapsto> [0, 0]]\<rparr>) =
     Inl (ValueError (''Measurement already logged to key '' @ repr_key ''m'')) \<and>
   log_of_measurement_results (snd (ActOnArgs_measure (\<lambda>s. (Inr [1, 0], s)) ''m'' [True, True]
     \<lparr>axes = [0, 1], prng = (), log_of_measurement_results = [''m'' \<mapsto> [0, 0]]\<rparr>)) =
     [''m'' \<mapsto> [0, 0]]"
  using measure_duplicate_key_fails
    [of "\<lparr>axes = [0, 1], prng = (), log_of_measurement_results = [''m'' \<mapsto> [0, 0]]\<rparr>"
        "''m''" "[0, 0]" "\<lambda>s. (Inr [1, 0], s)" "[True, True]"]
  by (simp add: ActOnArgs_measure_def)

text \<open>
  Claim C9. The measurement runs before the key is looked up. Let the log hold an entry
  under the key, let the measurement end (returning or raising) in the state \<open>s\<close>, with
  the log as it was. Then \<^verbatim>\<open>measure\<close> raises and leaves the context in the state \<open>s\<close>, the
  one the measurement produced and not the one before the call; the error is the
  measurement's own if it raised, and the \<^verbatim>\<open>ValueError\<close> of the duplicate key
  otherwise. The log is unchanged.
\<close>

theorem measure_performs_before_key_check:
  assumes "log_of_measurement_results self key = Some v"
    and "perform self = (r, s)"
    and "log_of_measurement_results s = log_of_measurement_results self"
  shows "ActOnArgs_measure perform key invert_mask self =
           (Inl (case r of Inl e \<Rightarrow> e
                 | Inr bits \<Rightarrow> ValueError (''Measurement already logged to key '' @ repr_key key)),
            s) \<and>
         log_of_measurement_results (snd (ActOnArgs_measure perform key invert_mask self)) =
           log_of_measurement_results self"
proof -
  have "log_of_measurement_results s key \<noteq> None"
    using assms(1,3) by simp
  from measure_state_is_performs [of perform self r s key invert_mask, OF assms(2) this] assms(3)
  show ?thesis by simp
qed

theorem measure_performs_before_key_check_witness:
  "ActOnArgs_measure (\<lambda>s. (Inr [1], s\<lparr>prng := Suc (prng s)\<rparr>)) ''m'' [False]
     \<lparr>axes = [0], prng = 0, log_of_measurement_results = [''m'' \<mapsto> [0]]\<rparr> =
   (Inl (ValueError (''Measurement already logged to key '' @ repr_key ''m'')),
    \<lparr>axes = [0], prng = 1, log_of_measurement_results = [''m'' \<mapsto> [0]]\<rparr>)"
  using measure_performs_before_key_check
    [of "\<lparr>axes = [0], prng = 0::nat, log_of_measurement_results = [''m'' \<mapsto> [0]]\<rparr>"
        "''m''" "[0]" "\<lambda>s. (Inr [1], s\<lparr>prng := Suc (prng s)\<rparr>)" "Inr [1]"
        "\<lparr>axes = [0], prng = 1::nat, log_of_measurement_results = [''m'' \<mapsto> [0]]\<rparr>" "[False]"]
  by simp

section \<open>Properties of the decomposition strategy\<close>

subsection \<open>Auxiliary facts\<close>

lemmas example_simps = strat_act_on_from_apply_decompose_def example_decompose_def
  recording_act_on_def qubit_map_of_def enumerate_eq_zip upt_rec

lemma apply_operations_steps:
  "apply_operations act_on qm ops s = (Inr u, s') \<Longrightarrow>
   \<exists>ss. length ss = Suc (length ops) \<and> ss ! 0 = s \<and> ss ! length ops = s' \<and>
     (\<forall>k<length ops. \<exists>ax. those (map qm (qubits (ops ! k))) = Some ax \<and>
        act_on (ops ! k) ((ss ! k)\<lparr>axes := ax\<rparr>) = (Inr (), ss ! Suc k))"
proof (induction ops arbitrary: s)
  case Nil
  then have "s' = s" by simp
  then show ?case by (intro exI [of _ "[s]"]) simp
next
  case (Cons operation rest)
  from Cons.prems obtain ax s1 where
    ax: "those (map qm (qubits operation)) = Some ax"
    and step: "act_on operation (s\<lparr>axes := ax\<rparr>) = (Inr (), s1)"
    and rest: "apply_operations act_on qm rest s1 = (Inr u, s')"
    by (auto split: option.splits prod.splits sum.splits)
  from Cons.IH [OF rest] obtain ss where
    len: "length ss = Suc (length rest)" and first: "ss ! 0 = s1"
    and final: "ss ! length rest = s'"
    and steps: "\<forall>k<length rest. \<exists>ax. those (map qm (qubits (rest ! k))) = Some ax \<and>
        act_on (rest ! k) ((ss ! k)\<lparr>axes := ax\<rparr>) = (Inr (), ss ! Suc k)"
    by blast
  have "\<exists>ax. those (map qm (qubits ((operation # rest) ! k))) = Some ax \<and>
          act_on ((operation # rest) ! k) (((s # ss) ! k)\<lparr>axes := ax\<rparr>) =
            (Inr (), (s # ss) ! Suc k)"
    if "k < length (operation # rest)" for k
  proof (cases k)
    case 0
    with ax step first show ?thesis by simp
  next
    case (Suc j)
    with that steps show ?thesis by simp
  qed
  with len final show ?case
    by (intro exI [of _ "s # ss"]) simp
qed

lemma fold_qubit_map:
  "distinct qs \<Longrightarrow>
   fold (\<lambda>(i, q) m. m(q \<mapsto> ax ! i)) (enumerate n qs) m0 q =
     (if q \<in> set qs then Some (ax ! (n + index_of qs q)) else m0 q)"
proof (induction qs arbitrary: n m0)
  case Nil
  then show ?case by simp
next
  case (Cons x xs)
  then show ?case by auto
qed

lemma qubit_map_of_index:
  "distinct qs \<Longrightarrow> q \<in> set qs \<Longrightarrow> qubit_map_of qs ax q = Some (ax ! index_of qs q)"
  by (simp add: qubit_map_of_def fold_qubit_map)

lemma index_of_nth: "distinct qs \<Longrightarrow> i < length qs \<Longrightarrow> index_of qs (qs ! i) = i"
proof (induction qs arbitrary: i)
  case Nil
  then show ?case by simp
next
  case (Cons x xs)
  then show ?case by (cases i) auto
qed

lemma those_map_Some:
  "\<forall>x\<in>set xs. f x = Some (g x) \<Longrightarrow> those (map f xs) = Some (map g xs)"
  by (induction xs) simp_all

lemma apply_operations_in_order:
  assumes "\<forall>operation\<in>set operations. those (map qm (qubits operation)) = Some (r operation)"
  shows "apply_operations act_on qm operations args =
           apply_in_order act_on (map (\<lambda>operation. (operation, r operation)) operations) args"
  using assms
proof (induction operations arbitrary: args)
  case Nil
  then show ?case by simp
next
  case (Cons operation rest)
  then show ?case
    by (auto split: prod.splits sum.splits)
qed

subsection \<open>The axes are restored\<close>

text \<open>
  Claim C3. Whatever the value, the context and the behaviour of \<^verbatim>\<open>act_on\<close>, and whether
  the strategy returns or raises, the axes of the context after the call are the axes
  it had before the call.
\<close>

theorem strat_restores_axes:
  "axes (snd (strat_act_on_from_apply_decompose try_decompose act_on val args)) = axes args"
  by (auto simp: strat_act_on_from_apply_decompose_def Let_def
           split: prod.splits option.splits sum.splits)

theorem strat_restores_axes_witness:
  "axes (snd (strat_act_on_from_apply_decompose example_decompose recording_act_on 1
                example_args)) = [5, 7] \<and>
   fst (strat_act_on_from_apply_decompose example_decompose recording_act_on 1 example_args) =
     Inr (ReturnedBool True) \<and>
   axes (snd (strat_act_on_from_apply_decompose example_decompose recording_act_on 2
                example_args)) = [5, 7] \<and>
   fst (strat_act_on_from_apply_decompose example_decompose recording_act_on 2 example_args) =
     Inl (Raised ''boom'')"
  using strat_restores_axes [of example_decompose recording_act_on 1 example_args]
    strat_restores_axes [of example_decompose recording_act_on 2 example_args]
  by (simp add: example_simps)

subsection \<open>Not applicable, or applied in full\<close>

text \<open>
  Claim C4. When the value does not decompose, the strategy returns \<^verbatim>\<open>NotImplemented\<close>
  (it does not raise) and leaves the context as it was. When the strategy returns
  \<^verbatim>\<open>True\<close>, the value did decompose and every sub-operation was applied: there is a run
  of contexts, starting at the caller's, in which each sub-operation in turn was given
  its remapped axes and \<^verbatim>\<open>act_on\<close> returned normally, and the context left behind is the
  last of the run with the caller's axes.
\<close>

theorem strat_not_applicable_or_all_applied:
  "(fst (try_decompose val) = None \<longrightarrow>
      strat_act_on_from_apply_decompose try_decompose act_on val args =
        (Inr NotImplemented, args)) \<and>
   (fst (strat_act_on_from_apply_decompose try_decompose act_on val args) =
      Inr (ReturnedBool True) \<longrightarrow>
      (\<exists>operations qs sh ss.
         try_decompose val = (Some operations, qs, sh) \<and>
         length qs = length (axes args) \<and>
         length ss = Suc (length operations) \<and> ss ! 0 = args \<and>
         (\<forall>k<length operations. \<exists>ax.
            those (map (qubit_map_of qs (axes args)) (qubits (operations ! k))) = Some ax \<and>
            act_on (operations ! k) ((ss ! k)\<lparr>axes := ax\<rparr>) = (Inr (), ss ! Suc k)) \<and>
         snd (strat_act_on_from_apply_decompose try_decompose act_on val args) =
           (ss ! length operations)\<lparr>axes := axes args\<rparr>))"
proof (intro conjI impI)
  assume "fst (try_decompose val) = None"
  then show "strat_act_on_from_apply_decompose try_decompose act_on val args =
               (Inr NotImplemented, args)"
    by (cases "try_decompose val") (simp add: strat_act_on_from_apply_decompose_def)
next
  let ?strat = "strat_act_on_from_apply_decompose try_decompose act_on val args"
  assume ok: "fst ?strat = Inr (ReturnedBool True)"
  obtain operations qs sh where td: "try_decompose val = (operations, qs, sh)"
    by (cases "try_decompose val")
  with ok obtain ops where some: "operations = Some ops"
    by (cases operations) (auto simp: strat_act_on_from_apply_decompose_def)
  from ok td some have len: "length qs = length (axes args)"
    by (auto simp: strat_act_on_from_apply_decompose_def split: if_splits)
  obtain r s' where run: "apply_operations act_on (qubit_map_of qs (axes args)) ops args = (r, s')"
    by (cases "apply_operations act_on (qubit_map_of qs (axes args)) ops args")
  with ok td some len obtain u where r: "r = Inr u"
    by (cases r) (auto simp: strat_act_on_from_apply_decompose_def Let_def)
  from td some len run r have final: "snd ?strat = s'\<lparr>axes := axes args\<rparr>"
    by (simp add: strat_act_on_from_apply_decompose_def Let_def)
  from apply_operations_steps [OF run [unfolded r]] obtain ss where
    "length ss = Suc (length ops)" "ss ! 0 = args" "ss ! length ops = s'"
    "\<forall>k<length ops. \<exists>ax.
        those (map (qubit_map_of qs (axes args)) (qubits (ops ! k))) = Some ax \<and>
        act_on (ops ! k) ((ss ! k)\<lparr>axes := ax\<rparr>) = (Inr (), ss ! Suc k)"
    by blast
  with td some len final
  show "\<exists>operations qs sh ss.
         try_decompose val = (Some operations, qs, sh) \<and>
         length qs = length (axes args) \<and>
         length ss = Suc (length operations) \<and> ss ! 0 = args \<and>
         (\<forall>k<length operations. \<exists>ax.
            those (map (qubit_map_of qs (axes args)) (qubits (operations ! k))) = Some ax \<and>
            act_on (operations ! k) ((ss ! k)\<lparr>axes := ax\<rparr>) = (Inr (), ss ! Suc k)) \<and>
         snd ?strat = (ss ! length operations)\<lparr>axes := axes args\<rparr>"
    by blast
qed

theorem strat_not_applicable_or_all_applied_witness:
  "fst (example_decompose 0) = None \<and>
   strat_act_on_from_apply_decompose example_decompose recording_act_on 0 example_args =
     (Inr NotImplemented, example_args) \<and>
   fst (strat_act_on_from_apply_decompose example_decompose recording_act_on 1 example_args) =
     Inr (ReturnedBool True) \<and>
   fst (example_decompose 1) = Some [\<lparr>qubits = [''b'']\<rparr>, \<lparr>qubits = [''b'', ''a'']\<rparr>] \<and>
   fst (strat_act_on_from_apply_decompose example_decompose recording_act_on 2 example_args) =
     Inl (Raised ''boom'')"
  using strat_not_applicable_or_all_applied [of example_decompose 0 recording_act_on example_args]
    strat_not_applicable_or_all_applied [of example_decompose 1 recording_act_on example_args]
  by (simp add: example_simps)

subsection \<open>Remapping and order of application\<close>

text \<open>
  Claim C5. Let the value decompose into operations over distinct qubits, as many as
  the context has axes, every sub-operation acting on some of these qubits. Then the
  \<open>i\<close>-th decomposed qubit has position \<open>i\<close>, and the strategy is the run of \<^verbatim>\<open>act_on\<close>
  over the sub-operations in the order of the decomposition, each on the context with
  its axes set to the tuple that holds, for each qubit of the sub-operation, the axis
  of the context at the position of that qubit; the run stops at the first
  sub-operation that raises, and the caller's axes are written back at the end.
\<close>

theorem strat_remaps_and_applies_in_order:
  assumes "try_decompose val = (Some operations, qs, sh)"
    and "length qs = length (axes args)"
    and "distinct qs"
    and "\<forall>operation\<in>set operations. set (qubits operation) \<subseteq> set qs"
  shows "(\<forall>i<length qs. index_of qs (qs ! i) = i) \<and>
         strat_act_on_from_apply_decompose try_decompose act_on val args =
           (case apply_in_order act_on
                   (map (\<lambda>operation.
                           (operation, map (\<lambda>q. axes args ! index_of qs q) (qubits operation)))
                      operations) args of
              (Inl e, args') \<Rightarrow> (Inl e, args'\<lparr>axes := axes args\<rparr>)
            | (Inr u, args') \<Rightarrow> (Inr (ReturnedBool True), args'\<lparr>axes := axes args\<rparr>))"
proof -
  let ?r = "\<lambda>operation. map (\<lambda>q. axes args ! index_of qs q) (qubits operation)"
  have "those (map (qubit_map_of qs (axes args)) (qubits operation)) = Some (?r operation)"
    if "operation \<in> set operations" for operation
  proof (rule those_map_Some, rule ballI)
    fix q assume "q \<in> set (qubits operation)"
    with that assms(4) have "q \<in> set qs" by blast
    with assms(3) show "qubit_map_of qs (axes args) q = Some (axes args ! index_of qs q)"
      by (rule qubit_map_of_index)
  qed
  then have "apply_operations act_on (qubit_map_of qs (axes args)) operations args =
               apply_in_order act_on (map (\<lambda>operation. (operation, ?r operation)) operations) args"
    by (intro apply_operations_in_order) blast
  with assms(1,2) index_of_nth [OF assms(3)] show ?thesis
    by (simp add: strat_act_on_from_apply_decompose_def Let_def)
qed

theorem strat_remaps_and_applies_in_order_witness:
  "strat_act_on_from_apply_decompose example_decompose recording_act_on 1 example_args =
   (Inr (ReturnedBool True),
    \<lparr>axes = [5, 7], prng = [[7], [7, 5]], log_of_measurement_results = Map.empty\<rparr>)"
  using strat_remaps_and_applies_in_order
    [of example_decompose 1 "[\<lparr>qubits = [''b'']\<rparr>, \<lparr>qubits = [''b'', ''a'']\<rparr>]" "[''a'', ''b'']"
        "()" example_args recording_act_on]
  by (simp add: example_decompose_def recording_act_on_def)

section \<open>Properties of the deprecation annotations\<close>

subsection \<open>Auxiliary facts\<close>

text \<open>
  The executable test of a milestone accepts exactly the strings of the form
  \<open>v\<close>, digits, dot, digits.
\<close>

lemma deadline_ok_iff:
  "deadline_ok d \<longleftrightarrow>
     (\<exists>major minor. d = ''v'' @ major @ ''.'' @ minor \<and> major \<noteq> [] \<and> minor \<noteq> [] \<and>
        list_all is_digit major \<and> list_all is_digit minor)"
proof
  assume "deadline_ok d"
  then obtain rest where d: "d = CHR ''v'' # rest"
    and major: "takeWhile is_digit rest \<noteq> []"
    and tail: "case dropWhile is_digit rest of [] \<Rightarrow> False
               | p # minor \<Rightarrow> p = CHR ''.'' \<and> minor \<noteq> [] \<and> list_all is_digit minor"
    by (auto simp: deadline_ok_def Let_def split: list.splits)
  from tail obtain minor where dw: "dropWhile is_digit rest = CHR ''.'' # minor"
    and minor: "minor \<noteq> []" "list_all is_digit minor"
    by (auto split: list.splits)
  have "rest = takeWhile is_digit rest @ dropWhile is_digit rest"
    by simp
  with dw have "d = ''v'' @ takeWhile is_digit rest @ ''.'' @ minor"
    using d by simp
  moreover have "list_all is_digit (takeWhile is_digit rest)"
    by (simp add: list_all_iff) (meson set_takeWhileD)
  ultimately show "\<exists>major minor. d = ''v'' @ major @ ''.'' @ minor \<and> major \<noteq> [] \<and>
        minor \<noteq> [] \<and> list_all is_digit major \<and> list_all is_digit minor"
    using major minor by blast
next
  assume "\<exists>major minor. d = ''v'' @ major @ ''.'' @ minor \<and> major \<noteq> [] \<and> minor \<noteq> [] \<and>
        list_all is_digit major \<and> list_all is_digit minor"
  then obtain major minor where d: "d = ''v'' @ major @ ''.'' @ minor"
    and ne: "major \<noteq> []" "minor \<noteq> []"
    and dig: "list_all is_digit major" "list_all is_digit minor"
    by blast
  have nd: "\<not> is_digit CHR ''.''"
    by (simp add: is_digit_def)
  from dig(1) have tw: "takeWhile is_digit (major @ CHR ''.'' # minor) = major"
    using nd by (simp add: list_all_iff)
  from dig(1) have dw: "dropWhile is_digit (major @ CHR ''.'' # minor) = CHR ''.'' # minor"
    using nd by (simp add: list_all_iff)
  show "deadline_ok d"
    using d ne dig(2) tw dw by (simp add: deadline_ok_def Let_def)
qed

lemma deprecation_message_contains:
  "sublist name (deprecation_message name deadline remedy) \<and>
   sublist deadline (deprecation_message name deadline remedy) \<and>
   sublist remedy (deprecation_message name deadline remedy)"
proof (intro conjI)
  show "sublist name (deprecation_message name deadline remedy)"
    unfolding deprecation_message_def by (rule prefix_imp_sublist) simp
  show "sublist deadline (deprecation_message name deadline remedy)"
    unfolding deprecation_message_def sublist_def
    by (intro exI [of _ "name @ '' was used but is deprecated. It will be removed in cirq ''"]
          exI [of _ "''. '' @ remedy"]) simp
  show "sublist remedy (deprecation_message name deadline remedy)"
    unfolding deprecation_message_def by (rule suffix_imp_sublist) (simp add: suffix_def)
qed

lemma warn_or_error_warn:
  "policy env = WarnOnUse \<Longrightarrow>
   warn_or_error msg env =
     (Inr (), env\<lparr>emitted := emitted env @
        (if mode env = FirstUse \<and> msg \<in> set (map message (emitted env)) then []
         else [\<lparr>category = DeprecationWarning, message = msg\<rparr>])\<rparr>)"
  by (simp add: warn_or_error_def)

lemma warn_or_error_fail:
  "policy env = FailOnUse \<Longrightarrow>
   warn_or_error msg env =
     (Inl (ValueError (''Cirq should not use deprecated functionality: '' @ msg)), env)"
  by (simp add: warn_or_error_def)

subsection \<open>The milestone is validated at decoration time\<close>

text \<open>
  Claim C6. For every milestone string: if it matches the pattern, each of the four
  annotations returns its wrapper; if it does not, each of them fails at once with the
  assertion error, before any wrapper exists that could be called. For
  \<^verbatim>\<open>deprecate_attributes\<close> the failure is raised for one malformed milestone anywhere in the
  table.
\<close>

theorem decoration_validates_deadline:
  "(deadline_ok deadline \<longrightarrow>
      (\<exists>w. deprecated deadline remedy name func = Inr w) \<and>
      (\<exists>w. deprecated_parameter deadline remedy func_name parameter_desc match rewrite func' =
             Inr w) \<and>
      (\<exists>w. deprecated_class deadline remedy name new = Inr w) \<and>
      (\<exists>w. deprecate_attributes module [(attr, deadline, remedy)] = Inr w)) \<and>
   (\<not> deadline_ok deadline \<longrightarrow>
      deprecated deadline remedy name func = Inl AssertionError \<and>
      deprecated_parameter deadline remedy func_name parameter_desc match rewrite func' =
        Inl AssertionError \<and>
      deprecated_class deadline remedy name new = Inl AssertionError \<and>
      (\<forall>deprecated_attributes. (attr, deadline, remedy) \<in> set deprecated_attributes \<longrightarrow>
         deprecate_attributes module deprecated_attributes = Inl AssertionError))"
  by (auto simp: deprecated_def deprecated_parameter_def deprecated_class_def
        deprecate_attributes_def list_all_iff)

theorem decoration_validates_deadline_witness:
  "deadline_ok ''v1.2'' \<and>
   (\<exists>w. deprecated ''v1.2'' ''Roll some dice.'' ''old_func'' (\<lambda>(a, b). a + b :: int) = Inr w) \<and>
   (\<exists>w. deprecate_attributes [''foo'' \<mapsto> ''foo'', ''bar'' \<mapsto> ''bar'']
          [(''foo'', ''v1.2'', ''Roll some dice.'')] = Inr w) \<and>
   \<not> deadline_ok ''invalid'' \<and>
   deprecated ''invalid'' ''Roll some dice.'' ''old_func'' (\<lambda>(a, b). a + b :: int) =
     Inl AssertionError \<and>
   deprecate_attributes [''foo'' \<mapsto> ''foo'', ''bar'' \<mapsto> ''bar'']
     [(''foo'', ''invalid'', ''Roll some dice.'')] = Inl AssertionError"
proof -
  have ok: "deadline_ok ''v1.2''" and bad: "\<not> deadline_ok ''invalid''"
    by (simp_all add: deadline_ok_def is_digit_def)
  from ok bad
    decoration_validates_deadline
      [of "''v1.2''" "''Roll some dice.''" "''old_func''" "\<lambda>(a, b). a + b :: int"
          "''f''" "''p''" "\<lambda>x::unit. False" id "\<lambda>x::unit. x" "\<lambda>x::unit. x"
          "[''foo'' \<mapsto> ''foo'', ''bar'' \<mapsto> ''bar'']" "''foo''"]
    decoration_validates_deadline
      [of "''invalid''" "''Roll some dice.''" "''old_func''" "\<lambda>(a, b). a + b :: int"
          "''f''" "''p''" "\<lambda>x::unit. False" id "\<lambda>x::unit. x" "\<lambda>x::unit. x"
          "[''foo'' \<mapsto> ''foo'', ''bar'' \<mapsto> ''bar'']" "''foo''"]
  show ?thesis
    by simp
qed

subsection \<open>A deprecated use under the warning policy\<close>

text \<open>
  Claim C7. Let the policy be the warning one. The text of the diagnostic contains the
  deprecated name, the milestone and the remediation. A call of a deprecated function,
  an instantiation of a deprecated class and a read of a deprecated attribute each
  return what the wrapped function, constructor or module returns, and add to the
  emitted diagnostics exactly one, of the deprecation category and with that text -
  on every use in the every-use mode, and in the first-use mode only if that text has
  not been emitted before, nothing being added otherwise.
\<close>

theorem deprecated_use_warns_and_returns:
  assumes "policy env = WarnOnUse"
  shows "sublist name (deprecation_message name deadline remedy) \<and>
         sublist deadline (deprecation_message name deadline remedy) \<and>
         sublist remedy (deprecation_message name deadline remedy) \<and>
         (deprecated deadline remedy name func = Inr w \<longrightarrow>
            w x env =
              (Inr (func x), env\<lparr>emitted := emitted env @
                 (if mode env = FirstUse \<and>
                     deprecation_message name deadline remedy \<in> set (map message (emitted env))
                  then []
                  else [\<lparr>category = DeprecationWarning,
                         message = deprecation_message name deadline remedy\<rparr>])\<rparr>)) \<and>
         (deprecated_class deadline remedy name new = Inr c \<longrightarrow>
            c y env =
              (Inr (new y), env\<lparr>emitted := emitted env @
                 (if mode env = FirstUse \<and>
                     deprecation_message name deadline remedy \<in> set (map message (emitted env))
                  then []
                  else [\<lparr>category = DeprecationWarning,
                         message = deprecation_message name deadline remedy\<rparr>])\<rparr>)) \<and>
         (deprecate_attributes module deprecated_attributes = Inr g \<and>
          map_of deprecated_attributes name = Some (deadline, remedy) \<and> module name = Some v \<longrightarrow>
            g name env =
              (Inr v, env\<lparr>emitted := emitted env @
                 (if mode env = FirstUse \<and>
                     deprecation_message name deadline remedy \<in> set (map message (emitted env))
                  then []
                  else [\<lparr>category = DeprecationWarning,
                         message = deprecation_message name deadline remedy\<rparr>])\<rparr>))"
proof (intro conjI impI)
  let ?msg = "deprecation_message name deadline remedy"
  note w = warn_or_error_warn [OF assms, of "?msg"]
  show "sublist name ?msg" "sublist deadline ?msg" "sublist remedy ?msg"
    using deprecation_message_contains [of name deadline remedy] by simp_all
  show "w x env =
          (Inr (func x), env\<lparr>emitted := emitted env @
             (if mode env = FirstUse \<and> ?msg \<in> set (map message (emitted env)) then []
              else [\<lparr>category = DeprecationWarning, message = ?msg\<rparr>])\<rparr>)"
    if "deprecated deadline remedy name func = Inr w"
    using that w by (auto simp: deprecated_def split: if_splits)
  show "c y env =
          (Inr (new y), env\<lparr>emitted := emitted env @
             (if mode env = FirstUse \<and> ?msg \<in> set (map message (emitted env)) then []
              else [\<lparr>category = DeprecationWarning, message = ?msg\<rparr>])\<rparr>)"
    if "deprecated_class deadline remedy name new = Inr c"
    using that w by (auto simp: deprecated_class_def split: if_splits)
  show "g name env =
          (Inr v, env\<lparr>emitted := emitted env @
             (if mode env = FirstUse \<and> ?msg \<in> set (map message (emitted env)) then []
              else [\<lparr>category = DeprecationWarning, message = ?msg\<rparr>])\<rparr>)"
    if "deprecate_attributes module deprecated_attributes = Inr g \<and>
        map_of deprecated_attributes name = Some (deadline, remedy) \<and> module name = Some v"
    using that w by (auto simp: deprecate_attributes_def split: if_splits)
qed

theorem deprecated_use_warns_and_returns_witness:
  "(case deprecated ''v1.2'' ''Roll some dice.'' ''old_func'' (\<lambda>(a, b). a + b :: int) of
      Inl e \<Rightarrow> False
    | Inr w \<Rightarrow>
        w (1, 2) \<lparr>policy = WarnOnUse, mode = EveryUse, emitted = []\<rparr> =
          (Inr 3, \<lparr>policy = WarnOnUse, mode = EveryUse,
                   emitted = [\<lparr>category = DeprecationWarning,
                     message = ''old_func was used but is deprecated. It will be removed in cirq v1.2. Roll some dice.''\<rparr>]\<rparr>) \<and>
        w (1, 2) \<lparr>policy = WarnOnUse, mode = FirstUse,
                  emitted = [\<lparr>category = DeprecationWarning,
                     message = ''old_func was used but is deprecated. It will be removed in cirq v1.2. Roll some dice.''\<rparr>]\<rparr> =
          (Inr 3, \<lparr>policy = WarnOnUse, mode = FirstUse,
                   emitted = [\<lparr>category = DeprecationWarning,
                     message = ''old_func was used but is deprecated. It will be removed in cirq v1.2. Roll some dice.''\<rparr>]\<rparr>))"
proof -
  let ?every = "\<lparr>policy = WarnOnUse, mode = EveryUse, emitted = []\<rparr>"
  let ?first = "\<lparr>policy = WarnOnUse, mode = FirstUse,
                 emitted = [\<lparr>category = DeprecationWarning,
                   message = ''old_func was used but is deprecated. It will be removed in cirq v1.2. Roll some dice.''\<rparr>]\<rparr>"
  have ok: "deadline_ok ''v1.2''"
    by (simp add: deadline_ok_def is_digit_def)
  then obtain w where
    w: "deprecated ''v1.2'' ''Roll some dice.'' ''old_func'' (\<lambda>(a, b). a + b :: int) = Inr w"
    by (simp add: deprecated_def)
  have e: "policy ?every = WarnOnUse" and f: "policy ?first = WarnOnUse"
    by simp_all
  from deprecated_use_warns_and_returns
    [OF e, where name = "''old_func''" and deadline = "''v1.2''"
       and remedy = "''Roll some dice.''" and func = "\<lambda>(a, b). a + b :: int" and w = w
       and x = "(1, 2)", THEN conjunct2, THEN conjunct2, THEN conjunct2, THEN conjunct1,
       THEN mp, OF w]
    deprecated_use_warns_and_returns
    [OF f, where name = "''old_func''" and deadline = "''v1.2''"
       and remedy = "''Roll some dice.''" and func = "\<lambda>(a, b). a + b :: int" and w = w
       and x = "(1, 2)", THEN conjunct2, THEN conjunct2, THEN conjunct2, THEN conjunct1,
       THEN mp, OF w] w
  show ?thesis
    by (simp add: deprecation_message_def)
qed

subsection \<open>A deprecated use under the self-use policy\<close>

text \<open>
  Claim C8. Let the policy be the self-use one. Then a call of a deprecated function, a
  call that passes a deprecated parameter, an instantiation of a deprecated class and a
  read of a deprecated attribute each raise the \<^verbatim>\<open>ValueError\<close>, and the environment is
  the one before the use: no warning has been emitted.
\<close>

theorem deprecated_use_fails_under_self_use_policy:
  assumes "policy env = FailOnUse"
  shows "(deprecated deadline remedy name func = Inr w \<longrightarrow>
            w x env =
              (Inl (ValueError (''Cirq should not use deprecated functionality: '' @
                      deprecation_message name deadline remedy)), env)) \<and>
         (deprecated_parameter deadline remedy func_name parameter_desc match rewrite func' =
            Inr p \<and> match z \<longrightarrow>
            p z env =
              (Inl (ValueError (''Cirq should not use deprecated functionality: '' @
                      deprecation_message (parameter_desc @ '' parameter of '' @ func_name)
                        deadline remedy)), env)) \<and>
         (deprecated_class deadline remedy name new = Inr c \<longrightarrow>
            c y env =
              (Inl (ValueError (''Cirq should not use deprecated functionality: '' @
                      deprecation_message name deadline remedy)), env)) \<and>
         (deprecate_attributes module deprecated_attributes = Inr g \<and>
          map_of deprecated_attributes name = Some (deadline, remedy) \<longrightarrow>
            g name env =
              (Inl (ValueError (''Cirq should not use deprecated functionality: '' @
                      deprecation_message name deadline remedy)), env))"
  using warn_or_error_fail [OF assms]
  by (auto simp: deprecated_def deprecated_parameter_def deprecated_class_def
        deprecate_attributes_def split: if_splits)

theorem deprecated_use_fails_under_self_use_policy_witness:
  "(case deprecated ''v1.2'' ''Roll some dice.'' ''old_func'' (\<lambda>(a, b). a + b :: int) of
      Inl e \<Rightarrow> False
    | Inr w \<Rightarrow>
        w (1, 2) \<lparr>policy = FailOnUse, mode = EveryUse, emitted = []\<rparr> =
          (Inl (ValueError ''Cirq should not use deprecated functionality: old_func was used but is deprecated. It will be removed in cirq v1.2. Roll some dice.''),
           \<lparr>policy = FailOnUse, mode = EveryUse, emitted = []\<rparr>))"
proof -
  let ?env = "\<lparr>policy = FailOnUse, mode = EveryUse, emitted = []\<rparr>"
  have ok: "deadline_ok ''v1.2''"
    by (simp add: deadline_ok_def is_digit_def)
  then obtain w where
    w: "deprecated ''v1.2'' ''Roll some dice.'' ''old_func'' (\<lambda>(a, b). a + b :: int) = Inr w"
    by (simp add: deprecated_def)
  have "policy ?env = FailOnUse" by simp
  from deprecated_use_fails_under_self_use_policy
    [OF this, where name = "''old_func''" and deadline = "''v1.2''"
       and remedy = "''Roll some dice.''" and func = "\<lambda>(a, b). a + b :: int" and w = w
       and x = "(1, 2)", THEN conjunct1, THEN mp, OF w] w
  show ?thesis
    by (simp add: deprecation_message_def)
qed

end
